theory Spec2Isabelle
  imports Complex_Main "HOL-Library.Char_ord" "HOL-Library.List_Lexorder"
begin

section \<open>Python values and the libraries the ledger calls\<close>

text \<open>
  A Python \<open>str\<close> is modelled by the \<open>char list\<close> of its UTF-8 encoding: equality
  and the code-point order of Python strings are equality and the lexicographic byte
  order of the encodings, and \<open>s.encode()\<close> is the identity. \<open>bytes\<close> is a
  \<open>char list\<close> as well (an Isabelle \<open>char\<close> is one byte). A Python \<open>float\<close> is
  modelled by a real number, so rounding, infinities and NaN are outside the model; a
  Python \<open>int\<close> is an \<open>int\<close>.
\<close>

type_synonym bytes = "char list"

datatype py_error =
  IndexError | ValueError | TypeError | MalformedPointError | BadSignatureError

text \<open>
  What \<open>json.dumps\<close> is given: the parsed-JSON view of blocks and transactions. A
  \<open>dict\<close> is an association list in insertion order; a Python dict holds each key once.
\<close>

datatype json =
  JNull
  | JBool bool
  | JInt int
  | JFloat real
  | JStr string
  | JList "json list"
  | JDict "(string \<times> json) list"

text \<open>
  The functions of \<open>hashlib\<close>, \<open>json\<close>, the interpreter and \<open>ecdsa\<close> that the
  repository calls and does not define are parameters of the model:
  \<^item> \<open>sha256 b\<close> is \<open>hashlib.sha256(b).digest()\<close>;
  \<open>hexdigest()\<close> is its rendering by \<open>hexlify\<close> below;
  \<^item> \<open>float_repr\<close> is \<open>float.__repr__\<close>, which \<open>json.dumps\<close> writes a float with;
  \<^item> \<open>json_string\<close> is the string encoder of \<open>json.dumps\<close>
  (quotes and escapes, \<open>ensure_ascii\<close>);
  \<^item> \<open>str_dict\<close> is \<open>str()\<close> of an \<open>OrderedDict\<close>;
  \<^item> \<open>from_string b\<close> is \<open>VerifyingKey.from_string(b, curve=NIST256p)\<close>, a key or
  the error it raises;
  \<^item> \<open>vk_verify k sig msg\<close> is \<open>k.verify(sig, msg)\<close>, its result or the error it
  raises.
\<close>

record 'vk pylib =
  sha256 :: "bytes \<Rightarrow> bytes"
  float_repr :: "real \<Rightarrow> string"
  json_string :: "string \<Rightarrow> string"
  str_dict :: "(string \<times> json) list \<Rightarrow> string"
  from_string :: "bytes \<Rightarrow> py_error + 'vk"
  vk_verify :: "'vk \<Rightarrow> bytes \<Rightarrow> bytes \<Rightarrow> py_error + bool"

definition encode :: "string \<Rightarrow> bytes" where
  "encode s = s"

subsection \<open>Hexadecimal\<close>

definition hex_digit :: "nat \<Rightarrow> char" where
  "hex_digit n = ''0123456789abcdef'' ! (n mod 16)"

definition hexlify :: "bytes \<Rightarrow> string" where
  "hexlify bs = concat (map (\<lambda>b. [hex_digit (of_char b div 16), hex_digit (of_char b mod 16)]) bs)"

definition digit_value :: "char \<Rightarrow> nat option" where
  "digit_value c =
     (let n = (of_char c :: nat) in
      if 48 \<le> n \<and> n \<le> 57 then Some (n - 48)
      else if 97 \<le> n \<and> n \<le> 102 then Some (n - 87)
      else if 65 \<le> n \<and> n \<le> 70 then Some (n - 55)
      else None)"

definition Py_ISSPACE :: "char \<Rightarrow> bool" where
  "Py_ISSPACE c = (of_char c \<in> {9, 10, 11, 12, 13, 32 :: nat})"

text \<open>
  \<open>bytes.fromhex(s)\<close>: two hexadecimal digits per byte, ASCII whitespace between
  bytes skipped, \<open>ValueError\<close> on anything else; \<open>TypeError\<close> when the argument is
  \<open>None\<close>.
\<close>

fun fromhex_str :: "string \<Rightarrow> py_error + bytes" where
  "fromhex_str [] = Inr []"
| "fromhex_str (c # cs) =
     (if Py_ISSPACE c then fromhex_str cs
      else (case digit_value c of
              None \<Rightarrow> Inl ValueError
            | Some hi \<Rightarrow>
                (case cs of
                   [] \<Rightarrow> Inl ValueError
                 | d # ds \<Rightarrow>
                     (case digit_value d of
                        None \<Rightarrow> Inl ValueError
                      | Some lo \<Rightarrow>
                          (case fromhex_str ds of
                             Inl e \<Rightarrow> Inl e
                           | Inr bs \<Rightarrow> Inr (char_of (hi * 16 + lo) # bs))))))"

definition fromhex :: "string option \<Rightarrow> py_error + bytes" where
  "fromhex a = (case a of None \<Rightarrow> Inl TypeError | Some s \<Rightarrow> fromhex_str s)"

subsection \<open>The canonical codec: \<open>json.dumps(_, sort_keys=True)\<close> and \<open>hash\<close>\<close>

fun str_nat :: "nat \<Rightarrow> string" where
  "str_nat n = (if n < 10 then [hex_digit n] else str_nat (n div 10) @ [hex_digit (n mod 10)])"

definition str_int :: "int \<Rightarrow> string" where
  "str_int i = (if i < 0 then ''-'' @ str_nat (nat (- i)) else str_nat (nat i))"

fun join :: "string \<Rightarrow> string list \<Rightarrow> string" where
  "join sep [] = []"
| "join sep [x] = x"
| "join sep (x # y # ys) = x @ sep @ join sep (y # ys)"

text \<open>utils.py: \<open>OrderedDict(sorted(unsorted_dict.items(), key=lambda d: d[0]))\<close>.\<close>

definition sorted_dict_by_key :: "(string \<times> 'a) list \<Rightarrow> (string \<times> 'a) list" where
  "sorted_dict_by_key unsorted_dict = sort_key fst unsorted_dict"

text \<open>
  \<open>json.dumps(x, sort_keys=True)\<close> with the default separators: at every dict, the
  items are sorted (by key, keys being distinct) before they are written.
\<close>

fun dumps :: "'vk pylib \<Rightarrow> json \<Rightarrow> string" where
  "dumps L JNull = ''null''"
| "dumps L (JBool b) = (if b then ''true'' else ''false'')"
| "dumps L (JInt i) = str_int i"
| "dumps L (JFloat x) = float_repr L x"
| "dumps L (JStr s) = json_string L s"
| "dumps L (JList xs) = ''['' @ join '', '' (map (dumps L) xs) @ '']''"
| "dumps L (JDict kvs) =
     ''{'' @ join '', '' (map (\<lambda>(k, v). json_string L k @ '': '' @ dumps L v) (sort_key fst kvs)) @ ''}''"

text \<open>
  blockchain.py, \<open>BlockChain.hash\<close>:
  \<open>hashlib.sha256(json.dumps(block, sort_keys=True).encode()).hexdigest()\<close>.
\<close>

definition hash :: "'vk pylib \<Rightarrow> json \<Rightarrow> string" where
  "hash L block = (let sorted_block = dumps L block in hexlify (sha256 L (encode sorted_block)))"

section \<open>The ledger: blockchain.py\<close>

definition MINING_DIFFICULTY :: nat where
  "MINING_DIFFICULTY = 3"

definition MINING_SENDER :: string where
  "MINING_SENDER = ''THE BLOCKCHAIN''"

definition MINING_REWARD :: real where
  "MINING_REWARD = 1.0"

definition MINING_TIMER_SEC :: real where
  "MINING_TIMER_SEC = 20"

text \<open>
  A transaction and a block are dicts with a fixed set of keys; they are records here,
  and \<open>transaction_json\<close> and \<open>block_json\<close> give the dict that the source builds
  (the dict literal in the source's order, then \<open>utils.sorted_dict_by_key\<close>).
  \<open>float(value)\<close> is the identity on the float an amount is modelled by.
\<close>

record transaction =
  sender_blockchain_address :: string
  recipient_blockchain_address :: string
  "value" :: real

record block =
  timestamp :: real
  transactions :: "transaction list"
  nonce :: int
  previous_hash :: string

definition transaction_dict :: "transaction \<Rightarrow> (string \<times> json) list" where
  "transaction_dict t = sorted_dict_by_key
     [(''sender_blockchain_address'', JStr (sender_blockchain_address t)),
      (''recipient_blockchain_address'', JStr (recipient_blockchain_address t)),
      (''value'', JFloat (value t))]"

definition transaction_json :: "transaction \<Rightarrow> json" where
  "transaction_json t = JDict (transaction_dict t)"

definition block_json :: "block \<Rightarrow> json" where
  "block_json b = JDict (sorted_dict_by_key
     [(''timestamp'', JFloat (timestamp b)),
      (''transactions'', JList (map transaction_json (transactions b))),
      (''nonce'', JInt (nonce b)),
      (''previous_hash'', JStr (previous_hash b))])"

text \<open>
  What leaves the object: the HTTP requests it sends to its neighbours and the
  \<open>threading.Timer\<close>s it starts. Every request is taken to return a response; the
  exception that an unreachable neighbour raises in \<open>requests\<close> is not modelled.
\<close>

datatype http_request = GET string | PUT string | DELETE string

datatype task = StartMining | SyncNeighbours

datatype timer = Timer real task

record response =
  status_code :: int
  response_chain :: "block list"

text \<open>
  The state of a \<open>BlockChain\<close> object. A \<open>threading.Semaphore\<close> is its counter:
  a non-blocking \<open>acquire\<close> fails at 0 and decrements otherwise, \<open>release\<close>
  increments. \<open>sent\<close> and \<open>timers\<close> record the requests sent and the timers started.
\<close>

record blockchain =
  transaction_pool :: "transaction list"
  chain :: "block list"
  neighbours :: "string list"
  blockchain_address :: string
  port :: int
  mining_semaphore :: nat
  sync_neighbours_semaphore :: nat
  sent :: "http_request list"
  timers :: "timer list"

definition url :: "string \<Rightarrow> string \<Rightarrow> string" where
  "url node path = ''http://'' @ node @ path"

definition create_block :: "real \<Rightarrow> int \<Rightarrow> string \<Rightarrow> blockchain \<Rightarrow> block \<times> blockchain" where
  "create_block now nonce' previous_hash' s =
     (let block = \<lparr>timestamp = now, transactions = transaction_pool s,
                    nonce = nonce', previous_hash = previous_hash'\<rparr>;
          s1 = s\<lparr>chain := chain s @ [block]\<rparr>;
          s2 = s1\<lparr>transaction_pool := []\<rparr>;
          s3 = s2\<lparr>sent := sent s2 @ map (\<lambda>node. DELETE (url node ''/transactions'')) (neighbours s2)\<rparr>
      in (block, s3))"

text \<open>\<open>__init__\<close>: an empty pool and chain, then the genesis block.\<close>

definition init :: "'vk pylib \<Rightarrow> real \<Rightarrow> string \<Rightarrow> int \<Rightarrow> blockchain" where
  "init L now blockchain_address' port' =
     (let s0 = \<lparr>transaction_pool = [], chain = [], neighbours = [],
                 blockchain_address = blockchain_address', port = port',
                 mining_semaphore = 1, sync_neighbours_semaphore = 1,
                 sent = [], timers = []\<rparr>
      in snd (create_block now 0 (hash L (JDict [])) s0))"

definition verify_transaction_signature ::
  "'vk pylib \<Rightarrow> string option \<Rightarrow> string option \<Rightarrow> transaction \<Rightarrow> py_error + bool" where
  "verify_transaction_signature L sender_public_key signature transaction =
     (let message = sha256 L (encode (str_dict L (transaction_dict transaction)))
      in case fromhex signature of
           Inl e \<Rightarrow> Inl e
         | Inr signature_bytes \<Rightarrow>
             (case fromhex sender_public_key of
                Inl e \<Rightarrow> Inl e
              | Inr key_bytes \<Rightarrow>
                  (case from_string L key_bytes of
                     Inl e \<Rightarrow> Inl e
                   | Inr verifying_key \<Rightarrow> vk_verify L verifying_key signature_bytes message)))"

definition calculate_total_amount :: "blockchain \<Rightarrow> string \<Rightarrow> real" where
  "calculate_total_amount s blockchain_address' =
     fold (\<lambda>block total_amount.
             fold (\<lambda>transaction total_amount.
                     (let v = value transaction;
                          total_amount1 =
                            (if blockchain_address' = recipient_blockchain_address transaction
                             then total_amount + v else total_amount);
                          total_amount2 =
                            (if blockchain_address' = sender_blockchain_address transaction
                             then total_amount1 - v else total_amount1)
                      in total_amount2))
                  (transactions block) total_amount)
          (chain s) 0"

definition add_transaction ::
  "'vk pylib \<Rightarrow> blockchain \<Rightarrow> string \<Rightarrow> string \<Rightarrow> real \<Rightarrow> string option \<Rightarrow> string option
     \<Rightarrow> py_error + bool \<times> blockchain" where
  "add_transaction L s sender recipient v sender_public_key signature =
     (let transaction = \<lparr>sender_blockchain_address = sender,
                          recipient_blockchain_address = recipient, value = v\<rparr>
      in if sender = MINING_SENDER
         then Inr (True, s\<lparr>transaction_pool := transaction_pool s @ [transaction]\<rparr>)
         else (case verify_transaction_signature L sender_public_key signature transaction of
                 Inl e \<Rightarrow> Inl e
               | Inr verified \<Rightarrow>
                   if verified
                   then (if calculate_total_amount s sender < v
                         then Inr (False, s)
                         else Inr (True, s\<lparr>transaction_pool := transaction_pool s @ [transaction]\<rparr>))
                   else Inr (False, s)))"

definition valid_proof :: "'vk pylib \<Rightarrow> transaction list \<Rightarrow> string \<Rightarrow> int \<Rightarrow> nat \<Rightarrow> bool" where
  "valid_proof L transactions' previous_hash' nonce' difficulty =
     (let guess_block = JDict (sorted_dict_by_key
            [(''transactions'', JList (map transaction_json transactions')),
             (''nonce'', JInt nonce'),
             (''previous_hash'', JStr previous_hash')]);
          guess_hash = hash L guess_block
      in take difficulty guess_hash = replicate difficulty (CHR ''0''))"

text \<open>\<open>chain[-1]\<close>: the last element, \<open>IndexError\<close> on the empty list.\<close>

definition last_block :: "block list \<Rightarrow> py_error + block" where
  "last_block c = (if c = [] then Inl IndexError else Inr (last c))"

text \<open>
  The search of \<open>proof_of_work\<close> has no bound: it is a partial function, \<open>None\<close>
  when no nonce from the start on passes \<open>valid_proof\<close>.
\<close>

partial_function (option) proof_of_work_loop ::
  "'vk pylib \<Rightarrow> transaction list \<Rightarrow> string \<Rightarrow> int \<Rightarrow> int option" where
  "proof_of_work_loop L transactions' previous_hash' nonce' =
     (if valid_proof L transactions' previous_hash' nonce' MINING_DIFFICULTY = False
      then proof_of_work_loop L transactions' previous_hash' (nonce' + 1)
      else Some nonce')"

definition proof_of_work :: "'vk pylib \<Rightarrow> blockchain \<Rightarrow> (py_error + int) option" where
  "proof_of_work L s =
     (let transactions' = transaction_pool s
      in case last_block (chain s) of
           Inl e \<Rightarrow> Some (Inl e)
         | Inr b \<Rightarrow>
             (let previous_hash' = hash L (block_json b)
              in case proof_of_work_loop L transactions' previous_hash' 0 of
                   None \<Rightarrow> None
                 | Some nonce' \<Rightarrow> Some (Inr nonce')))"

definition mining :: "'vk pylib \<Rightarrow> real \<Rightarrow> blockchain \<Rightarrow> (py_error + bool \<times> blockchain) option" where
  "mining L now s =
     (case add_transaction L s MINING_SENDER (blockchain_address s) MINING_REWARD None None of
        Inl e \<Rightarrow> Some (Inl e)
      | Inr (_, s1) \<Rightarrow>
          (case proof_of_work L s1 of
             None \<Rightarrow> None
           | Some (Inl e) \<Rightarrow> Some (Inl e)
           | Some (Inr nonce') \<Rightarrow>
               (case last_block (chain s1) of
                  Inl e \<Rightarrow> Some (Inl e)
                | Inr b \<Rightarrow>
                    (let previous_hash' = hash L (block_json b);
                         (_, s2) = create_block now nonce' previous_hash' s1;
                         s3 = s2\<lparr>sent := sent s2 @ map (\<lambda>node. PUT (url node ''/consensus'')) (neighbours s2)\<rparr>
                     in Some (Inr (True, s3))))))"

definition acquire :: "nat \<Rightarrow> bool \<times> nat" where
  "acquire counter = (if counter = 0 then (False, counter) else (True, counter - 1))"

definition release :: "nat \<Rightarrow> nat" where
  "release counter = counter + 1"

definition start_mining :: "'vk pylib \<Rightarrow> real \<Rightarrow> blockchain \<Rightarrow> (py_error + blockchain) option" where
  "start_mining L now s =
     (let (is_acquire, counter) = acquire (mining_semaphore s);
          s1 = s\<lparr>mining_semaphore := counter\<rparr>
      in if is_acquire
         then (case mining L now s1 of
                 None \<Rightarrow> None
               | Some (Inl e) \<Rightarrow> Some (Inl e)
               | Some (Inr (_, s2)) \<Rightarrow>
                   (let s3 = s2\<lparr>timers := timers s2 @ [Timer MINING_TIMER_SEC StartMining]\<rparr>
                    in Some (Inr (s3\<lparr>mining_semaphore := release (mining_semaphore s3)\<rparr>))))
         else Some (Inr s1))"

text \<open>
  \<open>valid_chain\<close>: \<open>chain[0]\<close> is read before the loop, then the loop walks the indices
  from 1 on.
\<close>

function valid_chain_loop :: "'vk pylib \<Rightarrow> block list \<Rightarrow> block \<Rightarrow> nat \<Rightarrow> bool" where
  "valid_chain_loop L chain' pre_block current_index =
     (if current_index < length chain'
      then (let block = chain' ! current_index
            in if previous_hash block \<noteq> hash L (block_json pre_block) then False
               else if \<not> valid_proof L (transactions block) (previous_hash block) (nonce block)
                          MINING_DIFFICULTY then False
               else valid_chain_loop L chain' block (current_index + 1))
      else True)"
  by pat_completeness auto
termination
  by (relation "measure (\<lambda>(L, chain', pre_block, current_index). length chain' - current_index)") auto

declare valid_chain_loop.simps [simp del]

definition valid_chain :: "'vk pylib \<Rightarrow> block list \<Rightarrow> py_error + bool" where
  "valid_chain L chain' =
     (case chain' of
        [] \<Rightarrow> Inl IndexError
      | pre_block # _ \<Rightarrow> Inr (valid_chain_loop L chain' pre_block 1))"

text \<open>
  \<open>resolve_conflicts\<close>: \<open>net u\<close> is the response that \<open>requests.get(u)\<close> returns.
  \<open>and\<close> evaluates \<open>valid_chain\<close> only for a chain longer than the running maximum;
  \<open>if longest_chain:\<close> is false for \<open>None\<close> and for the empty list.
\<close>

fun resolve_conflicts_loop ::
  "'vk pylib \<Rightarrow> (string \<Rightarrow> response) \<Rightarrow> string list \<Rightarrow> block list option \<Rightarrow> nat
     \<Rightarrow> py_error + block list option \<times> nat" where
  "resolve_conflicts_loop L net [] longest_chain max_length = Inr (longest_chain, max_length)"
| "resolve_conflicts_loop L net (node # nodes) longest_chain max_length =
     (let response = net (url node ''/chain'')
      in if status_code response = 200
         then (let chain' = response_chain response;
                   chain_length = length chain'
               in if chain_length > max_length
                  then (case valid_chain L chain' of
                          Inl e \<Rightarrow> Inl e
                        | Inr ok \<Rightarrow>
                            if ok then resolve_conflicts_loop L net nodes (Some chain') chain_length
                            else resolve_conflicts_loop L net nodes longest_chain max_length)
                  else resolve_conflicts_loop L net nodes longest_chain max_length)
         else resolve_conflicts_loop L net nodes longest_chain max_length)"

definition resolve_conflicts ::
  "'vk pylib \<Rightarrow> (string \<Rightarrow> response) \<Rightarrow> blockchain \<Rightarrow> py_error + bool \<times> blockchain" where
  "resolve_conflicts L net s =
     (let s1 = s\<lparr>sent := sent s @ map (\<lambda>node. GET (url node ''/chain'')) (neighbours s)\<rparr>
      in case resolve_conflicts_loop L net (neighbours s) None (length (chain s)) of
           Inl e \<Rightarrow> Inl e
         | Inr (longest_chain, _) \<Rightarrow>
             (case longest_chain of
                None \<Rightarrow> Inr (False, s1)
              | Some c \<Rightarrow> if c \<noteq> [] then Inr (True, s1\<lparr>chain := c\<rparr>) else Inr (False, s1)))"

section \<open>Predicates the properties are stated with\<close>

text \<open>
  Block \<open>i\<close> of a chain is linked and proved: its \<open>previous_hash\<close> is the codec hash of
  block \<open>i - 1\<close>, and its (transactions, nonce, previous_hash) pass the proof-of-work
  check at the system difficulty.
\<close>

definition linked_and_proved :: "'vk pylib \<Rightarrow> block list \<Rightarrow> nat \<Rightarrow> bool" where
  "linked_and_proved L C i =
     (previous_hash (C ! i) = hash L (block_json (C ! (i - 1))) \<and>
      valid_proof L (transactions (C ! i)) (previous_hash (C ! i)) (nonce (C ! i)) MINING_DIFFICULTY)"

section \<open>A small library instance and concrete data\<close>

text \<open>
  An instance of the library parameters on which the model can be evaluated. It is not
  SHA-256, \<open>repr\<close> or ECDSA: the digest is the byte sum of the message, repeated 32
  times; a float is written as its integer part and \<open>.0\<close>; a string is quoted without
  escapes; a dict is printed as its \<open>key=value;\<close> items; a key is any 64 bytes, and a
  signature is accepted when it is the message followed by the first 32 bytes of the
  key, \<open>BadSignatureError\<close> being raised otherwise, as \<open>ecdsa\<close> does. The blocks below
  are linked and proved under this instance.
\<close>

definition byte_sum :: "bytes \<Rightarrow> nat" where
  "byte_sum b = sum_list (map of_char b)"

definition stub_sha256 :: "bytes \<Rightarrow> bytes" where
  "stub_sha256 b = replicate 32 (char_of (byte_sum b))"

definition stub_float_repr :: "real \<Rightarrow> string" where
  "stub_float_repr x = str_int \<lfloor>x\<rfloor> @ ''.0''"

definition stub_json_string :: "string \<Rightarrow> string" where
  "stub_json_string s = [CHR 0x22] @ s @ [CHR 0x22]"

fun stub_atom :: "json \<Rightarrow> string" where
  "stub_atom (JStr s) = s"
| "stub_atom (JFloat x) = stub_float_repr x"
| "stub_atom _ = ''?''"

definition stub_str_dict :: "(string \<times> json) list \<Rightarrow> string" where
  "stub_str_dict d = concat (map (\<lambda>(k, v). k @ ''='' @ stub_atom v @ '';'') d)"

definition stub_from_string :: "bytes \<Rightarrow> py_error + bytes" where
  "stub_from_string b = (if length b = 64 then Inr b else Inl MalformedPointError)"

definition stub_verify :: "bytes \<Rightarrow> bytes \<Rightarrow> bytes \<Rightarrow> py_error + bool" where
  "stub_verify k sg msg = (if sg = msg @ take 32 k then Inr True else Inl BadSignatureError)"

definition stub_lib :: "bytes pylib" where
  "stub_lib =
     \<lparr>sha256 = stub_sha256, float_repr = stub_float_repr, json_string = stub_json_string,
      str_dict = stub_str_dict, from_string = stub_from_string, vk_verify = stub_verify\<rparr>"

definition reward_to :: "string \<Rightarrow> transaction" where
  "reward_to a = \<lparr>sender_blockchain_address = MINING_SENDER,
                   recipient_blockchain_address = a, value = MINING_REWARD\<rparr>"

definition block0 :: block where
  "block0 = \<lparr>timestamp = 1, transactions = [], nonce = 0,
      previous_hash = ''f8f8f8f8f8f8f8f8f8f8f8f8f8f8f8f8f8f8f8f8f8f8f8f8f8f8f8f8f8f8f8f8''\<rparr>"

definition block1 :: block where
  "block1 = \<lparr>timestamp = 2, transactions = [reward_to ''Aabc''], nonce = 2,
      previous_hash = ''4f4f4f4f4f4f4f4f4f4f4f4f4f4f4f4f4f4f4f4f4f4f4f4f4f4f4f4f4f4f4f4f''\<rparr>"

definition block2 :: block where
  "block2 = \<lparr>timestamp = 3, transactions = [reward_to ''AG''], nonce = 1,
      previous_hash = ''4e4e4e4e4e4e4e4e4e4e4e4e4e4e4e4e4e4e4e4e4e4e4e4e4e4e4e4e4e4e4e4e''\<rparr>"

definition block3 :: block where
  "block3 = \<lparr>timestamp = 4, transactions = [reward_to ''AHcz''], nonce = 3,
      previous_hash = ''4f4f4f4f4f4f4f4f4f4f4f4f4f4f4f4f4f4f4f4f4f4f4f4f4f4f4f4f4f4f4f4f''\<rparr>"

definition block4 :: block where
  "block4 = \<lparr>timestamp = 5, transactions = [reward_to ''Ccc''], nonce = 0,
      previous_hash = ''5050505050505050505050505050505050505050505050505050505050505050''\<rparr>"


definition transfer :: "string \<Rightarrow> string \<Rightarrow> real \<Rightarrow> transaction" where
  "transfer a b v = \<lparr>sender_blockchain_address = a, recipient_blockchain_address = b, value = v\<rparr>"

text \<open>
  A ledger whose chain holds \<open>A \<rightarrow> B: 5\<close> and then \<open>B \<rightarrow> A: 2\<close>, with one more
  transfer pending in the pool.
\<close>

definition ledger0 :: blockchain where
  "ledger0 = \<lparr>transaction_pool = [transfer ''A'' ''B'' 4], 
      chain = [block0, block1\<lparr>transactions := [transfer ''A'' ''B'' 5]\<rparr>,
               block2\<lparr>transactions := [transfer ''B'' ''A'' 2]\<rparr>],
      neighbours = [], blockchain_address = ''A'', port = 5000,
      mining_semaphore = 1, sync_neighbours_semaphore = 1, sent = [], timers = []\<rparr>"

text \<open>
  The chains fetched from a list of neighbours (those answered with status 200), in the
  order of the neighbours, and among them the candidates of a ledger: the fetched chains
  that are strictly longer than a given length and pass \<open>valid_chain\<close>.
\<close>

definition fetched_chains :: "(string \<Rightarrow> response) \<Rightarrow> string list \<Rightarrow> block list list" where
  "fetched_chains net nodes =
     map (\<lambda>node. response_chain (net (url node ''/chain'')))
       (filter (\<lambda>node. status_code (net (url node ''/chain'')) = 200) nodes)"

definition candidates :: "'vk pylib \<Rightarrow> nat \<Rightarrow> block list list \<Rightarrow> block list list" where
  "candidates L n cs = filter (\<lambda>c. n < length c \<and> valid_chain L c = Inr True) cs"

text \<open>
  What the scan of \<open>resolve_conflicts\<close> has found after a list of chains, started with
  \<open>best\<close> and the running maximum \<open>M\<close>: nothing new when no chain is a candidate
  above \<open>M\<close>, and otherwise a candidate of greatest length.
\<close>

definition loop_post ::
  "'vk pylib \<Rightarrow> block list list \<Rightarrow> block list option \<Rightarrow> nat \<Rightarrow> block list option \<Rightarrow> nat \<Rightarrow> bool" where
  "loop_post L cs best M best' M' =
     (if cs = [] then best' = best \<and> M' = M
      else (case best' of
              None \<Rightarrow> False
            | Some a \<Rightarrow> M' = length a \<and> a \<in> set cs \<and> (\<forall>c \<in> set cs. length c \<le> length a)))"

text \<open>
  A chain of five blocks, each linked to its predecessor and proved under the small
  library instance, and a network of two neighbours: \<open>n1\<close> answers with a chain of two
  blocks, \<open>n2\<close> with the chain \<open>c\<close>; every other address answers 404.
\<close>

definition chain5 :: "block list" where
  "chain5 = [block0, block1, block2, block3, block4]"

definition net5 :: "block list \<Rightarrow> string \<Rightarrow> response" where
  "net5 c u =
     (if u = ''http://n1/chain'' then \<lparr>status_code = 200, response_chain = [block0, block1]\<rparr>
      else if u = ''http://n2/chain'' then \<lparr>status_code = 200, response_chain = c\<rparr>
      else \<lparr>status_code = 404, response_chain = []\<rparr>)"

definition ledger3 :: blockchain where
  "ledger3 = ledger0\<lparr>neighbours := [''n1'', ''n2'']\<rparr>"






text \<open>A ledger with the genesis block and a pool of two transactions.\<close>

definition ledger1 :: blockchain where
  "ledger1 = \<lparr>transaction_pool = [transfer ''A'' ''B'' 5, transfer ''B'' ''A'' 2],
      chain = [block0], neighbours = [''n1''], blockchain_address = ''Dzz'', port = 5000,
      mining_semaphore = 1, sync_neighbours_semaphore = 1, sent = [], timers = []\<rparr>"

text \<open>The ledger \<open>ledger1\<close> after one mining run at time 7.\<close>

definition mined1 :: blockchain where
  "mined1 = ledger1\<lparr>
     chain := [block0, \<lparr>timestamp = 7,
                 transactions = [transfer ''A'' ''B'' 5, transfer ''B'' ''A'' 2, reward_to ''Dzz''],
                 nonce = 2, previous_hash = previous_hash block1\<rparr>],
     transaction_pool := [],
     sent := [DELETE ''http://n1/transactions'', PUT ''http://n1/consensus'']\<rparr>"





section \<open>Chain validation\<close>

lemma valid_chain_loop_unfold:
  "valid_chain_loop L C pre k =
     (if k < length C
      then (if previous_hash (C ! k) \<noteq> hash L (block_json pre) then False
            else if \<not> valid_proof L (transactions (C ! k)) (previous_hash (C ! k)) (nonce (C ! k))
                       MINING_DIFFICULTY then False
            else valid_chain_loop L C (C ! k) (k + 1))
      else True)"
  by (subst valid_chain_loop.simps) (simp add: Let_def)

lemma valid_chain_loop_step:
  "k < length C \<Longrightarrow> 1 \<le> k \<Longrightarrow>
   valid_chain_loop L C (C ! (k - 1)) k = (linked_and_proved L C k \<and> valid_chain_loop L C (C ! k) (k + 1))"
  by (subst valid_chain_loop_unfold) (simp add: linked_and_proved_def)

lemma valid_chain_loop_done:
  "\<not> k < length C \<Longrightarrow> valid_chain_loop L C pre k = True"
  by (subst valid_chain_loop_unfold) simp

lemma valid_chain_loop_iff:
  "1 \<le> k \<Longrightarrow>
   valid_chain_loop L C (C ! (k - 1)) k = (\<forall>i. k \<le> i \<and> i < length C \<longrightarrow> linked_and_proved L C i)"
proof (induction "length C - k" arbitrary: k)
  case 0
  then have "\<not> k < length C" by simp
  then show ?case by (auto simp: valid_chain_loop_done)
next
  case (Suc n)
  then have lt: "k < length C" by simp
  have n: "n = length C - (k + 1)" using Suc.hyps(2) by simp
  have ih: "valid_chain_loop L C (C ! k) (k + 1) =
              (\<forall>i. k + 1 \<le> i \<and> i < length C \<longrightarrow> linked_and_proved L C i)"
    using Suc.hyps(1)[OF n] by simp
  have split: "\<And>i. k \<le> i = (i = k \<or> k + 1 \<le> i)" by arith
  show ?case
    unfolding valid_chain_loop_step[OF lt Suc.prems] ih
    using lt by (auto simp: split)
qed

lemma valid_chain_nonempty:
  "C \<noteq> [] \<Longrightarrow>
   valid_chain L C = Inr (\<forall>i. 1 \<le> i \<and> i < length C \<longrightarrow> linked_and_proved L C i)"
  using valid_chain_loop_iff[of 1 L C]
  by (cases C) (simp_all add: valid_chain_def)

text \<open>
  C10. \<open>valid_chain\<close> reads \<open>chain[0]\<close> before its loop: on the empty candidate chain it
  raises \<open>IndexError\<close> and returns no boolean; it returns a boolean exactly when the
  candidate is not empty; and every one-element candidate validates as true.
\<close>

theorem valid_chain_empty_raises:
  "valid_chain L [] = Inl IndexError \<and>
   ((\<exists>r. valid_chain L C = Inr r) = (C \<noteq> [])) \<and>
   valid_chain L [b] = Inr True"
proof -
  have "valid_chain L [] = Inl IndexError" by (simp add: valid_chain_def)
  moreover have "(\<exists>r. valid_chain L C = Inr r) = (C \<noteq> [])"
    by (cases C) (simp_all add: valid_chain_def)
  moreover have "valid_chain L [b] = Inr True"
    by (simp add: valid_chain_nonempty)
  ultimately show ?thesis by simp
qed

text \<open>
  C4. For every candidate chain of length at least 2, \<open>valid_chain\<close> returns true
  exactly when every block from index 1 on is linked to its predecessor's hash and
  passes the proof-of-work check at the system difficulty; block 0 enters only through
  its hash. A failing block decides the result: whatever follows it in the chain,
  the result is false.
\<close>

theorem valid_chain_iff:
  assumes "2 \<le> length C"
  shows "valid_chain L C = Inr (\<forall>i \<in> {1 ..< length C}. linked_and_proved L C i) \<and>
         (\<forall>k rest. 1 \<le> k \<and> k < length C \<and> \<not> linked_and_proved L C k \<longrightarrow>
            valid_chain L (take (Suc k) C @ rest) = Inr False)"
proof -
  have ne: "C \<noteq> []" using assms by auto
  have a: "valid_chain L C = Inr (\<forall>i \<in> {1 ..< length C}. linked_and_proved L C i)"
    by (simp add: valid_chain_nonempty[OF ne] Ball_def)
  have b: "valid_chain L (take (Suc k) C @ rest) = Inr False"
    if k: "1 \<le> k" "k < length C" "\<not> linked_and_proved L C k" for k rest
  proof -
    let ?D = "take (Suc k) C @ rest"
    have "?D \<noteq> []" using ne by simp
    moreover have "k < length ?D" using k by simp
    moreover have "\<not> linked_and_proved L ?D k"
    proof -
      have "k - 1 < Suc k" by arith
      then have "?D ! (k - 1) = C ! (k - 1)" using k(2) by (simp add: nth_append)
      moreover have "?D ! k = C ! k" using k(2) by (simp add: nth_append)
      ultimately show ?thesis using k(3) by (simp add: linked_and_proved_def)
    qed
    ultimately show ?thesis using k(1) by (auto simp: valid_chain_nonempty)
  qed
  show ?thesis using a b by blast
qed

subsection \<open>Evaluation on the small library instance\<close>

lemma replicate_numeral_unfold: "replicate (numeral k) x = x # replicate (pred_numeral k) x"
  by (simp add: numeral_eq_Suc)

lemma hash_eq: "hash L block = hexlify (sha256 L (encode (dumps L block)))"
  by (simp add: hash_def)

lemma valid_proof_eq:
  "valid_proof L txs prev n d =
     (take d (hash L (JDict (sorted_dict_by_key
            [(''transactions'', JList (map transaction_json txs)),
             (''nonce'', JInt n),
             (''previous_hash'', JStr prev)]))) = replicate d (CHR ''0''))"
  by (simp add: valid_proof_def)

lemmas stub_eval = replicate_numeral_unfold hash_eq block_json_def transaction_json_def
  transaction_dict_def
  sorted_dict_by_key_def stub_lib_def byte_sum_def stub_sha256_def stub_float_repr_def
  stub_json_string_def valid_proof_eq MINING_DIFFICULTY_def encode_def hexlify_def
  hex_digit_def str_int_def reward_to_def MINING_SENDER_def MINING_REWARD_def

lemma hash_block0: "hash stub_lib (block_json block0) = previous_hash block1"
  by (simp add: stub_eval block0_def block1_def)

lemma proof_block1:
  "valid_proof stub_lib (transactions block1) (previous_hash block1) (nonce block1) MINING_DIFFICULTY"
  by (simp add: stub_eval block1_def)

lemma proof_block1_nonce0:
  "\<not> valid_proof stub_lib (transactions block1) (previous_hash block1) 0 MINING_DIFFICULTY"
  by (simp add: stub_eval block1_def)

theorem valid_chain_iff_witness:
  "2 \<le> length [block0, block1] \<and>
   valid_chain stub_lib [block0, block1] = Inr True \<and>
   valid_chain stub_lib ([block0, block1\<lparr>nonce := 0\<rparr>] @ [block2]) = Inr False"
proof -
  have len: "2 \<le> length [block0, block1]" by simp
  have ok: "linked_and_proved stub_lib [block0, block1] 1"
    using hash_block0 proof_block1 by (simp add: linked_and_proved_def)
  have bad: "\<not> linked_and_proved stub_lib [block0, block1\<lparr>nonce := 0\<rparr>] 1"
    using proof_block1_nonce0 by (simp add: linked_and_proved_def)
  have len': "2 \<le> length [block0, block1\<lparr>nonce := 0\<rparr>]" by simp
  have "valid_chain stub_lib [block0, block1] = Inr True"
    using valid_chain_iff[OF len, of stub_lib] ok by simp
  moreover have "valid_chain stub_lib ([block0, block1\<lparr>nonce := 0\<rparr>] @ [block2]) = Inr False"
    using valid_chain_iff[OF len', of stub_lib] bad by force
  ultimately show ?thesis by simp
qed

section \<open>Balances\<close>






section \<open>Fork choice\<close>

lemma valid_chain_longer:
  "M < length c \<Longrightarrow> \<exists>b. valid_chain L c = Inr b"
  by (cases c) (simp_all add: valid_chain_def)

lemma fetched_chains_Cons:
  "fetched_chains net (node # nodes) =
     (if status_code (net (url node ''/chain'')) = 200
      then response_chain (net (url node ''/chain'')) # fetched_chains net nodes
      else fetched_chains net nodes)"
  by (simp add: fetched_chains_def)

lemma candidates_mono:
  "M \<le> M' \<Longrightarrow> set (candidates L M' cs) \<subseteq> set (candidates L M cs)"
  by (auto simp: candidates_def)

lemma loop_skip:
  "\<not> (status_code (net (url node ''/chain'')) = 200 \<and>
       M < length (response_chain (net (url node ''/chain''))) \<and>
       valid_chain L (response_chain (net (url node ''/chain''))) = Inr True) \<Longrightarrow>
   resolve_conflicts_loop L net (node # nodes) best M = resolve_conflicts_loop L net nodes best M"
proof -
  let ?r = "net (url node ''/chain'')"
  let ?c = "response_chain ?r"
  assume no: "\<not> (status_code ?r = 200 \<and> M < length ?c \<and> valid_chain L ?c = Inr True)"
  show ?thesis
  proof (cases "status_code ?r = 200")
    case False
    then show ?thesis by (simp add: Let_def)
  next
    case st: True
    show ?thesis
    proof (cases "M < length ?c")
      case False
      then show ?thesis using st by (simp add: Let_def)
    next
      case True
      then obtain b where b: "valid_chain L ?c = Inr b" using valid_chain_longer by blast
      then have "b = False" using no st True by simp
      then show ?thesis using st True b by (simp add: Let_def)
    qed
  qed
qed

lemma loop_take:
  "status_code (net (url node ''/chain'')) = 200 \<Longrightarrow>
   M < length (response_chain (net (url node ''/chain''))) \<Longrightarrow>
   valid_chain L (response_chain (net (url node ''/chain''))) = Inr True \<Longrightarrow>
   resolve_conflicts_loop L net (node # nodes) best M =
     resolve_conflicts_loop L net nodes (Some (response_chain (net (url node ''/chain''))))
       (length (response_chain (net (url node ''/chain''))))"
  by (simp add: Let_def)

lemma resolve_conflicts_loop_spec:
  "\<exists>best' M'. resolve_conflicts_loop L net nodes best M = Inr (best', M') \<and>
     loop_post L (candidates L M (fetched_chains net nodes)) best M best' M'"
proof (induction nodes arbitrary: best M)
  case Nil
  show ?case by (simp add: fetched_chains_def candidates_def loop_post_def)
next
  case (Cons node nodes)
  let ?r = "net (url node ''/chain'')"
  let ?c = "response_chain ?r"
  show ?case
  proof (cases "status_code ?r = 200 \<and> M < length ?c \<and> valid_chain L ?c = Inr True")
    case False
    have cand: "candidates L M (fetched_chains net (node # nodes)) =
                candidates L M (fetched_chains net nodes)"
      using False by (auto simp: fetched_chains_Cons candidates_def)
    show ?thesis unfolding loop_skip[where net=net and node=node and M=M and L=L, OF False] cand by (rule Cons.IH)
  next
    case True
    let ?M1 = "length ?c"
    have take: "resolve_conflicts_loop L net (node # nodes) best M =
                resolve_conflicts_loop L net nodes (Some ?c) ?M1"
      using True by (intro loop_take) simp_all
    let ?cs = "candidates L M (fetched_chains net nodes)"
    let ?cs1 = "candidates L ?M1 (fetched_chains net nodes)"
    have cand: "candidates L M (fetched_chains net (node # nodes)) = ?c # ?cs"
      using True by (simp add: fetched_chains_Cons candidates_def)
    have sub: "set ?cs1 \<subseteq> set ?cs"
      using True by (intro candidates_mono) simp
    have small: "length c \<le> ?M1" if "c \<in> set ?cs" "c \<notin> set ?cs1" for c
      using that by (auto simp: candidates_def)
    from Cons.IH[of "Some ?c" ?M1] obtain best' M' where
      res: "resolve_conflicts_loop L net nodes (Some ?c) ?M1 = Inr (best', M')"
      and post: "loop_post L ?cs1 (Some ?c) ?M1 best' M'"
      by blast
    have "loop_post L (?c # ?cs) best M best' M'"
    proof (cases "?cs1 = []")
      case True
      then have eq: "best' = Some ?c" "M' = ?M1" using post by (simp_all add: loop_post_def)
      have "length c \<le> length ?c" if "c \<in> set (?c # ?cs)" for c
        using that small True by auto
      then show ?thesis unfolding loop_post_def eq by simp
    next
      case False
      then obtain a where a: "best' = Some a" "M' = length a" "a \<in> set ?cs1"
        and amax: "\<And>c. c \<in> set ?cs1 \<Longrightarrow> length c \<le> length a"
        using post unfolding loop_post_def by (auto split: option.splits)
      have lt: "?M1 < length a" using a(3) by (simp add: candidates_def)
      have "length c \<le> length a" if "c \<in> set (?c # ?cs)" for c
      proof (cases "c \<in> set ?cs1")
        case True
        then show ?thesis by (rule amax)
      next
        case False
        then have "length c \<le> ?M1" using that small by auto
        then show ?thesis using lt by simp
      qed
      moreover have "a \<in> set (?c # ?cs)" using a(3) sub by auto
      ultimately show ?thesis unfolding loop_post_def using a(1,2) by auto
    qed
    then show ?thesis unfolding take cand using res by simp
  qed
qed

lemma resolve_conflicts_spec:
  "\<exists>c'. resolve_conflicts L net s =
          Inr (candidates L (length (chain s)) (fetched_chains net (neighbours s)) \<noteq> [],
               s\<lparr>sent := sent s @ map (\<lambda>node. GET (url node ''/chain'')) (neighbours s),
                 chain := c'\<rparr>) \<and>
        (if candidates L (length (chain s)) (fetched_chains net (neighbours s)) = []
         then c' = chain s
         else c' \<in> set (candidates L (length (chain s)) (fetched_chains net (neighbours s))) \<and>
              (\<forall>c \<in> set (candidates L (length (chain s)) (fetched_chains net (neighbours s))).
                 length c \<le> length c'))"
proof -
  let ?cs = "candidates L (length (chain s)) (fetched_chains net (neighbours s))"
  let ?s1 = "s\<lparr>sent := sent s @ map (\<lambda>node. GET (url node ''/chain'')) (neighbours s)\<rparr>"
  obtain best' M' where
    res: "resolve_conflicts_loop L net (neighbours s) None (length (chain s)) = Inr (best', M')"
    and post: "loop_post L ?cs None (length (chain s)) best' M'"
    using resolve_conflicts_loop_spec by blast
  show ?thesis
  proof (cases "?cs = []")
    case True
    then have "best' = None" using post by (simp add: loop_post_def)
    then have "resolve_conflicts L net s = Inr (False, ?s1)"
      using res by (simp add: resolve_conflicts_def)
    moreover have "?s1 = ?s1\<lparr>chain := chain s\<rparr>" by simp
    ultimately show ?thesis using True by (intro exI[of _ "chain s"]) simp
  next
    case False
    then obtain a where a: "best' = Some a" "a \<in> set ?cs" "\<forall>c \<in> set ?cs. length c \<le> length a"
      using post by (auto simp: loop_post_def split: option.splits)
    have "length (chain s) < length a" using a(2) by (simp add: candidates_def)
    then have "a \<noteq> []" by auto
    then have "resolve_conflicts L net s = Inr (True, ?s1\<lparr>chain := a\<rparr>)"
      using res a(1) by (simp add: resolve_conflicts_def)
    then show ?thesis using False a(2,3) by (intro exI[of _ a]) simp
  qed
qed


subsection \<open>The fork-choice example on the small library instance\<close>

lemma hash_block1: "hash stub_lib (block_json block1) = previous_hash block2"
  by (simp add: stub_eval block1_def block2_def)

lemma hash_block2: "hash stub_lib (block_json block2) = previous_hash block3"
  by (simp add: stub_eval block2_def block3_def)

lemma hash_block3: "hash stub_lib (block_json block3) = previous_hash block4"
  by (simp add: stub_eval block3_def block4_def)

lemma proof_block2:
  "valid_proof stub_lib (transactions block2) (previous_hash block2) (nonce block2) MINING_DIFFICULTY"
  by (simp add: stub_eval block2_def)

lemma proof_block3:
  "valid_proof stub_lib (transactions block3) (previous_hash block3) (nonce block3) MINING_DIFFICULTY"
  by (simp add: stub_eval block3_def)

lemma proof_block4:
  "valid_proof stub_lib (transactions block4) (previous_hash block4) (nonce block4) MINING_DIFFICULTY"
  by (simp add: stub_eval block4_def)


lemma below_5: "i < 5 \<Longrightarrow> i = 0 \<or> i = 1 \<or> i = 2 \<or> i = 3 \<or> i = (4::nat)"
  by arith

lemma valid_chain5: "valid_chain stub_lib chain5 = Inr True"
proof -
  have "linked_and_proved stub_lib chain5 i" if i1: "1 \<le> i" and i5: "i < 5" for i
  proof -
    consider "i = 1" | "i = 2" | "i = 3" | "i = 4" using i1 below_5[OF i5] by auto
    then show ?thesis
    proof cases
      case 1 then show ?thesis
        using hash_block0 proof_block1 by (simp add: linked_and_proved_def chain5_def)
    next
      case 2 then show ?thesis
        using hash_block1 proof_block2 by (simp add: linked_and_proved_def chain5_def)
    next
      case 3 then show ?thesis
        using hash_block2 proof_block3 by (simp add: linked_and_proved_def chain5_def)
    next
      case 4 then show ?thesis
        using hash_block3 proof_block4 by (simp add: linked_and_proved_def chain5_def)
    qed
  qed
  moreover have "chain5 \<noteq> []" "length chain5 = 5" by (simp_all add: chain5_def)
  ultimately show ?thesis by (simp add: valid_chain_nonempty)
qed


lemma fetched_net5:
  "fetched_chains (net5 c) (neighbours ledger3) = [[block0, block1], c]"
  by (simp add: fetched_chains_def net5_def ledger3_def url_def)

lemma length_ledger3: "length (chain ledger3) = 3"
  by (simp add: ledger3_def ledger0_def)

lemma sent_ledger3:
  "sent ledger3 @ map (\<lambda>node. GET (url node ''/chain'')) (neighbours ledger3) =
     [GET ''http://n1/chain'', GET ''http://n2/chain'']"
  by (simp add: ledger3_def ledger0_def url_def)

lemma candidates_net5:
  "candidates stub_lib (length (chain ledger3)) (fetched_chains (net5 chain5) (neighbours ledger3))
     = [chain5]"
  by (simp add: fetched_net5 length_ledger3 candidates_def valid_chain5) (simp add: chain5_def)



lemma resolve_net5:
  "resolve_conflicts stub_lib (net5 chain5) ledger3 =
     Inr (True, ledger3\<lparr>sent := [GET ''http://n1/chain'', GET ''http://n2/chain''], chain := chain5\<rparr>)"
  using resolve_conflicts_spec[of stub_lib "net5 chain5" ledger3]
  unfolding candidates_net5 sent_ledger3 by auto

section \<open>The transaction pool\<close>

lemma create_block_effect:
  "create_block now n ph s =
     (\<lparr>timestamp = now, transactions = transaction_pool s, nonce = n, previous_hash = ph\<rparr>,
      s\<lparr>chain := chain s @ [\<lparr>timestamp = now, transactions = transaction_pool s, nonce = n, previous_hash = ph\<rparr>],
        transaction_pool := [],
        sent := sent s @ map (\<lambda>node. DELETE (url node ''/transactions'')) (neighbours s)\<rparr>)"
  by (simp add: create_block_def Let_def)

lemma add_transaction_pool:
  "add_transaction L s sender recipient v pk sg = Inr (r, s') \<Longrightarrow>
   s' = (if r then s\<lparr>transaction_pool := transaction_pool s @ [transfer sender recipient v]\<rparr> else s)"
  by (auto simp: add_transaction_def transfer_def Let_def split: if_splits sum.splits)

lemma resolve_conflicts_pool:
  "resolve_conflicts L net s = Inr (r, s') \<Longrightarrow> transaction_pool s' = transaction_pool s"
  using resolve_conflicts_spec[of L net s] by auto

text \<open>
  C7. \<open>create_block\<close> appends exactly one block, holding the pool as its transactions,
  and leaves the pool empty. The other ledger operations do not clear the pool:
  \<open>resolve_conflicts\<close> leaves it as it is, also when it replaces the chain, and
  \<open>add_transaction\<close> leaves it as it is or appends the one transaction to it.
\<close>

theorem create_block_clears_pool:
  "(chain (snd (create_block now n ph s)) = chain s @ [fst (create_block now n ph s)] \<and>
    transaction_pool (snd (create_block now n ph s)) = [] \<and>
    transactions (fst (create_block now n ph s)) = transaction_pool s) \<and>
   (resolve_conflicts L net s = Inr (r, s') \<longrightarrow> transaction_pool s' = transaction_pool s) \<and>
   (add_transaction L s sender recipient v pk sg = Inr (r, s') \<longrightarrow>
      transaction_pool s' = transaction_pool s \<or>
      transaction_pool s' = transaction_pool s @ [transfer sender recipient v])"
proof -
  have "add_transaction L s sender recipient v pk sg = Inr (r, s') \<longrightarrow>
      transaction_pool s' = transaction_pool s \<or>
      transaction_pool s' = transaction_pool s @ [transfer sender recipient v]"
    using add_transaction_pool[of L s sender recipient v pk sg r s'] by (cases r) auto
  then show ?thesis
    using resolve_conflicts_pool[of L net s r s'] by (simp add: create_block_effect)
qed

lemma add_reward_ledger3:
  "add_transaction stub_lib ledger3 MINING_SENDER ''A'' MINING_REWARD None None =
     Inr (True, ledger3\<lparr>transaction_pool := [transfer ''A'' ''B'' 4, transfer MINING_SENDER ''A'' MINING_REWARD]\<rparr>)"
  by (simp add: add_transaction_def transfer_def ledger3_def ledger0_def)

theorem create_block_clears_pool_witness:
  "transaction_pool ledger3 = [transfer ''A'' ''B'' 4] \<and>
   transaction_pool (snd (create_block 6 0 ''00'' ledger3)) = [] \<and>
   length (chain (snd (create_block 6 0 ''00'' ledger3))) = 4 \<and>
   resolve_conflicts stub_lib (net5 chain5) ledger3 =
     Inr (True, ledger3\<lparr>sent := [GET ''http://n1/chain'', GET ''http://n2/chain''], chain := chain5\<rparr>) \<and>
   transaction_pool (ledger3\<lparr>sent := [GET ''http://n1/chain'', GET ''http://n2/chain''], chain := chain5\<rparr>)
     = [transfer ''A'' ''B'' 4] \<and>
   add_transaction stub_lib ledger3 MINING_SENDER ''A'' MINING_REWARD None None =
     Inr (True, ledger3\<lparr>transaction_pool := [transfer ''A'' ''B'' 4, transfer MINING_SENDER ''A'' MINING_REWARD]\<rparr>) \<and>
   transaction_pool (ledger3\<lparr>transaction_pool := [transfer ''A'' ''B'' 4, transfer MINING_SENDER ''A'' MINING_REWARD]\<rparr>)
     = transaction_pool ledger3 @ [transfer MINING_SENDER ''A'' MINING_REWARD]"
proof -
  let ?replaced = "ledger3\<lparr>sent := [GET ''http://n1/chain'', GET ''http://n2/chain''], chain := chain5\<rparr>"
  let ?added = "ledger3\<lparr>transaction_pool := [transfer ''A'' ''B'' 4, transfer MINING_SENDER ''A'' MINING_REWARD]\<rparr>"
  have pool: "transaction_pool ledger3 = [transfer ''A'' ''B'' 4]"
    by (simp add: ledger3_def ledger0_def)
  have kept: "transaction_pool ?replaced = transaction_pool ledger3"
    using create_block_clears_pool[of 6 0 "''00''" ledger3 stub_lib "net5 chain5" True ?replaced
        "''A''" "''B''" 1 None None]
      resolve_net5 by simp
  have cleared: "transaction_pool (snd (create_block 6 0 ''00'' ledger3)) = [] \<and>
      chain (snd (create_block 6 0 ''00'' ledger3)) = chain ledger3 @ [fst (create_block 6 0 ''00'' ledger3)]"
    using create_block_clears_pool[of 6 0 "''00''" ledger3 stub_lib "net5 chain5" True ledger3
        "''A''" "''B''" 1 None None] by simp
  have appended: "transaction_pool ?added = transaction_pool ledger3 \<or>
      transaction_pool ?added = transaction_pool ledger3 @ [transfer MINING_SENDER ''A'' MINING_REWARD]"
    using create_block_clears_pool[of 6 0 "''00''" ledger3 stub_lib "net5 chain5" True ?added
        MINING_SENDER "''A''" MINING_REWARD None None]
      add_reward_ledger3 by blast
  then have "transaction_pool ?added = transaction_pool ledger3 @ [transfer MINING_SENDER ''A'' MINING_REWARD]"
    using pool by simp
  then show ?thesis
    using pool kept cleared resolve_net5 add_reward_ledger3 length_ledger3 by simp
qed

section \<open>Signature verification\<close>


lemma fromhex_str_errors: "fromhex_str s = Inl e \<Longrightarrow> e = ValueError"
  by (induction s arbitrary: e rule: fromhex_str.induct)
     (auto split: if_splits option.splits list.splits sum.splits)















section \<open>Admission of transactions\<close>









section \<open>Mining\<close>

text \<open>
  A ledger always holds its genesis block: \<open>__init__\<close> creates it, and no operation
  shortens the chain or replaces it by an empty one.
\<close>

lemma chain_nonempty:
  "chain (init L now a p) \<noteq> []"
  "chain (snd (create_block now n ph s)) \<noteq> []"
  "resolve_conflicts L net s = Inr (r, s') \<Longrightarrow> chain s \<noteq> [] \<Longrightarrow> chain s' \<noteq> []"
  "add_transaction L s sender recipient v pk sg = Inr (r, s') \<Longrightarrow> chain s' = chain s"
proof -
  show "chain (init L now a p) \<noteq> []" by (simp add: init_def create_block_effect)
  show "chain (snd (create_block now n ph s)) \<noteq> []" by (simp add: create_block_effect)
  show "chain s' = chain s" if "add_transaction L s sender recipient v pk sg = Inr (r, s')"
    using add_transaction_pool[OF that] by (cases r) simp_all
  show "chain s' \<noteq> []" if "resolve_conflicts L net s = Inr (r, s')" "chain s \<noteq> []"
  proof -
    let ?cs = "candidates L (length (chain s)) (fetched_chains net (neighbours s))"
    obtain c' where res: "resolve_conflicts L net s =
          Inr (?cs \<noteq> [], s\<lparr>sent := sent s @ map (\<lambda>node. GET (url node ''/chain'')) (neighbours s),
                            chain := c'\<rparr>)"
      and c'2: "if ?cs = [] then c' = chain s else c' \<in> set ?cs \<and> (\<forall>c \<in> set ?cs. length c \<le> length c')"
      using resolve_conflicts_spec[of L net s] by blast
    have c'1: "s' = s\<lparr>sent := sent s @ map (\<lambda>node. GET (url node ''/chain'')) (neighbours s),
                      chain := c'\<rparr>"
      using res that(1) by simp
    note c' = c'1 c'2
    show ?thesis
    proof (cases "?cs = []")
      case True
      then show ?thesis using c' that(2) by simp
    next
      case False
      then have "length (chain s) < length c'" using c'(2) by (simp add: candidates_def)
      then show ?thesis using c'(1) by auto
    qed
  qed
qed

lemma init_genesis: "init stub_lib 1 a p =
    \<lparr>transaction_pool = [], chain = [block0], neighbours = [], blockchain_address = a, port = p,
     mining_semaphore = 1, sync_neighbours_semaphore = 1, sent = [], timers = []\<rparr>"
  by (simp add: init_def create_block_effect block0_def stub_eval)

lemma proof_of_work_loop_sound:
  "proof_of_work_loop L txs ph start = Some m \<Longrightarrow>
   start \<le> m \<and> valid_proof L txs ph m MINING_DIFFICULTY \<and>
   (\<forall>k. start \<le> k \<and> k < m \<longrightarrow> \<not> valid_proof L txs ph k MINING_DIFFICULTY)"
proof (induction rule: proof_of_work_loop.raw_induct[rotated 1, consumes 1])
  case (1 loop L txs ph start m)
  show ?case
  proof (cases "valid_proof L txs ph start MINING_DIFFICULTY")
    case True
    then have "m = start" using "1.hyps" by simp
    then show ?thesis using True by auto
  next
    case False
    then have "loop L txs ph (start + 1) = Some m" using "1.hyps" by simp
    from "1.IH"[OF this] have ih: "start + 1 \<le> m" "valid_proof L txs ph m MINING_DIFFICULTY"
      "\<forall>k. start + 1 \<le> k \<and> k < m \<longrightarrow> \<not> valid_proof L txs ph k MINING_DIFFICULTY"
      by auto
    have "\<not> valid_proof L txs ph k MINING_DIFFICULTY" if "start \<le> k" "k < m" for k
    proof (cases "k = start")
      case True
      then show ?thesis using False by simp
    next
      case ne: False
      then have "start + 1 \<le> k" using that by simp
      then show ?thesis using ih(3) that by simp
    qed
    then show ?thesis using ih by auto
  qed
qed


lemma add_reward:
  "add_transaction L s MINING_SENDER (blockchain_address s) MINING_REWARD None None =
     Inr (True, s\<lparr>transaction_pool := transaction_pool s @ [reward_to (blockchain_address s)]\<rparr>)"
  by (simp add: add_transaction_def reward_to_def)

lemma mining_unfold:
  "chain s \<noteq> [] \<Longrightarrow>
   mining L now s =
     (case proof_of_work_loop L (transaction_pool s @ [reward_to (blockchain_address s)])
             (hash L (block_json (last (chain s)))) 0 of
        None \<Rightarrow> None
      | Some m \<Rightarrow>
          Some (Inr (True,
            s\<lparr>chain := chain s @
                  [\<lparr>timestamp = now,
                    transactions = transaction_pool s @ [reward_to (blockchain_address s)],
                    nonce = m, previous_hash = hash L (block_json (last (chain s)))\<rparr>],
              transaction_pool := [],
              sent := sent s @ map (\<lambda>node. DELETE (url node ''/transactions'')) (neighbours s)
                        @ map (\<lambda>node. PUT (url node ''/consensus'')) (neighbours s)\<rparr>)))"
  by (simp add: mining_def add_reward proof_of_work_def last_block_def create_block_effect
      split: option.splits)

lemma mining_empty_chain: "chain s = [] \<Longrightarrow> mining L now s = Some (Inl IndexError)"
  by (simp add: mining_def add_reward proof_of_work_def last_block_def)

lemma mining_diverges:
  assumes "chain s \<noteq> []"
    and "\<forall>n\<ge>0. \<not> valid_proof L (transaction_pool s @ [reward_to (blockchain_address s)])
           (hash L (block_json (last (chain s)))) n MINING_DIFFICULTY"
  shows "mining L now s = None"
proof -
  have "proof_of_work_loop L (transaction_pool s @ [reward_to (blockchain_address s)])
          (hash L (block_json (last (chain s)))) 0 = None"
  proof (rule ccontr)
    assume "\<not> ?thesis"
    then obtain m where "proof_of_work_loop L (transaction_pool s @ [reward_to (blockchain_address s)])
          (hash L (block_json (last (chain s)))) 0 = Some m" by auto
    from proof_of_work_loop_sound[OF this] show False using assms(2) by auto
  qed
  then show ?thesis using assms(1) by (simp add: mining_unfold)
qed


lemma ledger1_inputs:
  "chain ledger1 \<noteq> [] \<and>
   transaction_pool ledger1 @ [reward_to (blockchain_address ledger1)] =
     [transfer ''A'' ''B'' 5, transfer ''B'' ''A'' 2, reward_to ''Dzz''] \<and>
   hash stub_lib (block_json (last (chain ledger1))) = previous_hash block1"
  using hash_block0 by (simp add: ledger1_def)

lemma pow_ledger1_0:
  "\<not> valid_proof stub_lib [transfer ''A'' ''B'' 5, transfer ''B'' ''A'' 2, reward_to ''Dzz'']
       (previous_hash block1) 0 MINING_DIFFICULTY"
  by (simp add: stub_eval transfer_def block1_def)

lemma pow_ledger1_1:
  "\<not> valid_proof stub_lib [transfer ''A'' ''B'' 5, transfer ''B'' ''A'' 2, reward_to ''Dzz'']
       (previous_hash block1) 1 MINING_DIFFICULTY"
  by (simp add: stub_eval transfer_def block1_def)

lemma pow_ledger1_2:
  "valid_proof stub_lib [transfer ''A'' ''B'' 5, transfer ''B'' ''A'' 2, reward_to ''Dzz'']
       (previous_hash block1) 2 MINING_DIFFICULTY"
  by (simp add: stub_eval transfer_def block1_def)



section \<open>The mining task\<close>

text \<open>
  Two invocations of \<open>start_mining\<close> meet only at the semaphore: an invocation that
  finds the counter at 0 touches nothing else. The state \<open>s\<lparr>mining_semaphore := 0\<rparr>\<close> is
  the state of an invocation that has acquired the semaphore of \<open>s\<close> (counter 1) and not
  yet run \<open>mining\<close>; \<open>mining\<close> does not touch the counter, so it stays 0 until the
  release.
\<close>

lemma start_mining_held:
  "mining_semaphore s = 0 \<Longrightarrow> start_mining L now s = Some (Inr s)"
  by (simp add: start_mining_def acquire_def)

lemma mining_semaphore_unchanged:
  "mining L now s = Some (Inr (r, s')) \<Longrightarrow> mining_semaphore s' = mining_semaphore s"
  by (cases "chain s = []") (auto simp: mining_empty_chain mining_unfold split: option.splits)

lemma start_mining_free:
  assumes "mining_semaphore s \<noteq> 0" and "mining L now (s\<lparr>mining_semaphore := mining_semaphore s - 1\<rparr>) = Some (Inr (r, s'))"
  shows "start_mining L now s =
           Some (Inr (s'\<lparr>timers := timers s' @ [Timer MINING_TIMER_SEC StartMining],
                        mining_semaphore := mining_semaphore s\<rparr>))"
proof -
  have "mining_semaphore s' = mining_semaphore s - 1"
    using mining_semaphore_unchanged[OF assms(2)] by simp
  then show ?thesis using assms by (simp add: start_mining_def acquire_def release_def Let_def)
qed

text \<open>
  C9. When the mining semaphore is held, an invocation of \<open>start_mining\<close> returns the
  state as it found it: no mining run, no timer, the chain and the pool unchanged. So
  when a first invocation has acquired the semaphore and a second one arrives before
  the release (right after the acquire, or after the mining run), the second is a
  no-op and the first completes as if it were alone: one mining run executes.
\<close>

theorem start_mining_noop_when_held:
  "(mining_semaphore s = 0 \<longrightarrow> start_mining L now s = Some (Inr s)) \<and>
   (mining_semaphore s = 1 \<and>
    mining L now (s\<lparr>mining_semaphore := 0\<rparr>) = Some (Inr (r, s2)) \<longrightarrow>
      start_mining L now' (s\<lparr>mining_semaphore := 0\<rparr>) = Some (Inr (s\<lparr>mining_semaphore := 0\<rparr>)) \<and>
      start_mining L now' s2 = Some (Inr s2) \<and>
      start_mining L now s =
        Some (Inr (s2\<lparr>timers := timers s2 @ [Timer MINING_TIMER_SEC StartMining],
                     mining_semaphore := 1\<rparr>)))"
proof -
  have held: "start_mining L t x = Some (Inr x)" if "mining_semaphore x = 0" for t x
    using that by (rule start_mining_held)
  have run: "start_mining L now' (s\<lparr>mining_semaphore := 0\<rparr>) = Some (Inr (s\<lparr>mining_semaphore := 0\<rparr>)) \<and>
      start_mining L now' s2 = Some (Inr s2) \<and>
      start_mining L now s =
        Some (Inr (s2\<lparr>timers := timers s2 @ [Timer MINING_TIMER_SEC StartMining],
                     mining_semaphore := 1\<rparr>))"
    if one: "mining_semaphore s = 1"
      and m: "mining L now (s\<lparr>mining_semaphore := 0\<rparr>) = Some (Inr (r, s2))"
  proof -
    have "mining_semaphore s2 = 0" using mining_semaphore_unchanged[OF m] by simp
    then have b2: "start_mining L now' s2 = Some (Inr s2)" by (rule held)
    have b1: "start_mining L now' (s\<lparr>mining_semaphore := 0\<rparr>) = Some (Inr (s\<lparr>mining_semaphore := 0\<rparr>))"
      by (rule held) simp
    have "mining L now (s\<lparr>mining_semaphore := mining_semaphore s - 1\<rparr>) = Some (Inr (r, s2))"
      using one m by simp
    from start_mining_free[OF _ this] one have
      "start_mining L now s =
         Some (Inr (s2\<lparr>timers := timers s2 @ [Timer MINING_TIMER_SEC StartMining],
                      mining_semaphore := 1\<rparr>))"
      by simp
    then show ?thesis using b1 b2 by simp
  qed
  show ?thesis using held run by blast
qed

lemma pow_loop_ledger1:
  "proof_of_work_loop stub_lib [transfer ''A'' ''B'' 5, transfer ''B'' ''A'' 2, reward_to ''Dzz'']
     (previous_hash block1) 0 = Some 2"
proof -
  let ?f = "proof_of_work_loop stub_lib [transfer ''A'' ''B'' 5, transfer ''B'' ''A'' 2, reward_to ''Dzz'']
     (previous_hash block1)"
  have "?f 0 = ?f 1" using pow_ledger1_0 by (subst proof_of_work_loop.simps) simp
  also have "\<dots> = ?f 2" using pow_ledger1_1 by (subst proof_of_work_loop.simps) simp
  also have "\<dots> = Some 2" using pow_ledger1_2 by (subst proof_of_work_loop.simps) simp
  finally show ?thesis .
qed

lemma mining_ledger1:
  "mining stub_lib 7 (ledger1\<lparr>mining_semaphore := c\<rparr>) = Some (Inr (True, mined1\<lparr>mining_semaphore := c\<rparr>))"
proof -
  have ne: "chain (ledger1\<lparr>mining_semaphore := c\<rparr>) \<noteq> []" by (simp add: ledger1_def)
  show ?thesis
    unfolding mining_unfold[OF ne]
    using ledger1_inputs pow_loop_ledger1
    by (simp add: ledger1_def mined1_def url_def)
qed

theorem start_mining_noop_when_held_witness:
  "mining_semaphore ledger1 = 1 \<and>
   start_mining stub_lib 8 (ledger1\<lparr>mining_semaphore := 0\<rparr>) = Some (Inr (ledger1\<lparr>mining_semaphore := 0\<rparr>)) \<and>
   start_mining stub_lib 8 (mined1\<lparr>mining_semaphore := 0\<rparr>) = Some (Inr (mined1\<lparr>mining_semaphore := 0\<rparr>)) \<and>
   start_mining stub_lib 7 ledger1 =
     Some (Inr (mined1\<lparr>timers := [Timer MINING_TIMER_SEC StartMining]\<rparr>)) \<and>
   length (chain ledger1) = 1 \<and> length (chain mined1) = 2 \<and>
   mining_semaphore (ledger3\<lparr>mining_semaphore := 0\<rparr>) = 0 \<and>
   start_mining stub_lib 9 (ledger3\<lparr>mining_semaphore := 0\<rparr>) =
     Some (Inr (ledger3\<lparr>mining_semaphore := 0\<rparr>))"
proof -
  have held: "start_mining stub_lib 9 (ledger3\<lparr>mining_semaphore := 0\<rparr>) =
      Some (Inr (ledger3\<lparr>mining_semaphore := 0\<rparr>))"
    using start_mining_noop_when_held[of "ledger3\<lparr>mining_semaphore := 0\<rparr>" stub_lib 9 True
        "ledger3\<lparr>mining_semaphore := 0\<rparr>" 9]
    by simp
  have one: "mining_semaphore ledger1 = 1" by (simp add: ledger1_def)
  have "start_mining stub_lib 8 (ledger1\<lparr>mining_semaphore := 0\<rparr>) = Some (Inr (ledger1\<lparr>mining_semaphore := 0\<rparr>)) \<and>
      start_mining stub_lib 8 (mined1\<lparr>mining_semaphore := 0\<rparr>) = Some (Inr (mined1\<lparr>mining_semaphore := 0\<rparr>)) \<and>
      start_mining stub_lib 7 ledger1 =
        Some (Inr (mined1\<lparr>mining_semaphore := 0,
                     timers := timers (mined1\<lparr>mining_semaphore := 0\<rparr>) @ [Timer MINING_TIMER_SEC StartMining],
                     mining_semaphore := 1\<rparr>))"
    using start_mining_noop_when_held[of ledger1 stub_lib 7 True "mined1\<lparr>mining_semaphore := 0\<rparr>" 8]
      one mining_ledger1[of 0] by blast
  moreover have "mined1\<lparr>mining_semaphore := 0,
                     timers := timers (mined1\<lparr>mining_semaphore := 0\<rparr>) @ [Timer MINING_TIMER_SEC StartMining],
                     mining_semaphore := 1\<rparr> = mined1\<lparr>timers := [Timer MINING_TIMER_SEC StartMining]\<rparr>"
    by (simp add: mined1_def ledger1_def)
  ultimately show ?thesis using one held by (simp add: mined1_def ledger1_def)
qed

section \<open>The canonical codec\<close>










end
